theory Spec2Isabelle
  imports Main "HOL-Library.Sublist" "HOL-Library.AList"
begin

section \<open>The test tree of mayaunittestui.py\<close>

text \<open>
  Python exceptions that the modelled code can raise or let through. The string of
  \<open>RuntimeError\<close> is its message; \<open>Exception\<close> stands for any exception class other
  than the ones named, with the text of its traceback.
\<close>

datatype error =
    AttributeError
  | KeyError
  | OSError
  | RuntimeError string
  | ImportError string
  | Exception string

text \<open>\<open>class TestStatus\<close>: the five status constants 0 .. 4, in the order of the source.\<close>

datatype TestStatus = not_run | success | fail | error | skipped

text \<open>
  The objects of the \<open>unittest\<close> library that a node wraps. A test case carries the
  name and the module of its class, its \<open>_testMethodName\<close>, and what calling that method
  does (\<open>None\<close>: it returns; \<open>Some e\<close>: it raises \<open>e\<close>, where the text carried by
  \<open>e\<close> is what \<open>traceback.format_exc()\<close> gives while \<open>e\<close> is handled). A test suite
  carries the name and the module of its class and the tests it iterates over.
\<close>

datatype unittest_obj =
    TestCase (cls_name: string) (cls_module: string) string "error option"
  | TestSuite (cls_name: string) (cls_module: string) "unittest_obj list"

fun is_TestCase :: "unittest_obj \<Rightarrow> bool" where
  "is_TestCase (TestCase _ _ _ _) = True"
| "is_TestCase (TestSuite _ _ _) = False"

text \<open>
  \<open>class TestNode(BaseTreeNode)\<close>: the fields \<open>test\<close>, \<open>tool_tip\<close>, \<open>status\<close> and
  \<open>children\<close>. The \<open>_parent\<close> reference is the position of the node in the tree: a
  node is addressed from the root by the list of the rows that lead to it.
\<close>

datatype TestNode =
  TestNode (test: unittest_obj) (tool_tip: string) (status: TestStatus)
    (children: "TestNode list")

text \<open>
  \<open>BaseTreeNode.child\<close>: \<open>self.children[row]\<close> with Python's indexing (a negative row
  counts from the end), and \<open>None\<close> where the index raises \<open>IndexError\<close>.
\<close>

definition child :: "TestNode \<Rightarrow> int \<Rightarrow> TestNode option" where
  "child n row =
     (let len = int (length (children n)) in
      if 0 \<le> row \<and> row < len then Some (children n ! nat row)
      else if - len \<le> row \<and> row < 0 then Some (children n ! nat (len + row))
      else None)"

definition child_count :: "TestNode \<Rightarrow> nat" where
  "child_count n = length (children n)"

text \<open>
  \<open>TestNode.name\<close>. Reading \<open>.test\<close> of the \<open>None\<close> that \<open>child(0)\<close> returns for a
  node without children raises \<open>AttributeError\<close>.
\<close>

definition name :: "TestNode \<Rightarrow> error + string" where
  "name n =
     (case test n of
        TestCase _ _ testMethodName _ \<Rightarrow> Inr testMethodName
      | TestSuite _ _ _ \<Rightarrow>
          (case child n 0 of
             None \<Rightarrow> Inl AttributeError
           | Some c \<Rightarrow>
               if is_TestCase (test c) then Inr (cls_name (test c))
               else (case child c 0 of
                       None \<Rightarrow> Inl AttributeError
                     | Some g \<Rightarrow> Inr (cls_module (test g)))))"

text \<open>
  \<open>TestNode.get_status\<close>, with the \<open>for\<close> loop over the children as the second
  function: \<open>status_loop cs result\<close> runs the loop on the children \<open>cs\<close> still to visit,
  from the current value of \<open>result\<close>. An exception of \<open>name\<close> goes through.
\<close>

fun get_status :: "TestNode \<Rightarrow> error + TestStatus"
  and status_loop :: "TestNode list \<Rightarrow> TestStatus \<Rightarrow> error + TestStatus" where
  "get_status (TestNode t tip st cs) =
     (case name (TestNode t tip st cs) of
        Inl e \<Rightarrow> Inl e
      | Inr nm \<Rightarrow>
          if ''ModuleImportFailure'' \<in> set [nm, cls_name t] then Inr error
          else if cs = [] then Inr st
          else status_loop cs not_run)"
| "status_loop [] result = Inr result"
| "status_loop (c # cs) result =
     (case get_status c of
        Inl e \<Rightarrow> Inl e
      | Inr child_status \<Rightarrow>
          if child_status = error then Inr child_status
          else if child_status = fail then status_loop cs child_status
          else if child_status = success \<and> result \<noteq> fail then status_loop cs child_status
          else if child_status = skipped \<and> result \<noteq> fail then status_loop cs child_status
          else status_loop cs result)"


subsection \<open>Building the tree\<close>

text \<open>
  \<open>countTestCases\<close> of the \<open>unittest\<close> library: a test case counts 1, a suite the sum
  over its tests.
\<close>

fun countTestCases :: "unittest_obj \<Rightarrow> nat" where
  "countTestCases (TestCase _ _ _ _) = 1"
| "countTestCases (TestSuite _ _ ts) = sum_list (map countTestCases ts)"

text \<open>
  The children of a node are constructed one after the other; the first constructor that
  raises ends the construction of the parent.
\<close>

fun first_raise :: "(error + 'a) list \<Rightarrow> error + 'a list" where
  "first_raise [] = Inr []"
| "first_raise (r # rs) =
     (case r of
        Inl e \<Rightarrow> Inl e
      | Inr v \<Rightarrow> (case first_raise rs of Inl e \<Rightarrow> Inl e | Inr vs \<Rightarrow> Inr (v # vs)))"

text \<open>
  \<open>getattr(self.test, self.name())()\<close>: on a test case, \<open>name()\<close> is its
  \<open>_testMethodName\<close>, and the call does what the test method does. A test suite has no
  attribute named after a test class or a module, and \<open>getattr\<close> raises.
\<close>

fun call_method :: "unittest_obj \<Rightarrow> string \<Rightarrow> error option" where
  "call_method (TestCase _ _ testMethodName run) nm =
     (if nm = testMethodName then run else Some AttributeError)"
| "call_method (TestSuite _ _ _) nm = Some AttributeError"

text \<open>
  The second half of \<open>TestNode.__init__\<close>, on the node with its children in place: the
  call of the failing method of a \<open>ModuleImportFailure\<close>, with \<open>ImportError\<close> caught
  and its formatted traceback stored as the tool tip. Any other exception leaves the
  constructor.
\<close>

definition capture_import_failure :: "TestNode \<Rightarrow> error + TestNode" where
  "capture_import_failure self =
     (if ''ModuleImportFailure'' = cls_name (test self) then
        (case name self of
           Inl e \<Rightarrow> Inl e
         | Inr nm \<Rightarrow>
             (case call_method (test self) nm of
                None \<Rightarrow> Inr self
              | Some (ImportError format_exc) \<Rightarrow>
                  Inr (TestNode (test self) format_exc (status self) (children self))
              | Some e \<Rightarrow> Inl e))
      else Inr self)"

text \<open>
  \<open>TestNode.__init__\<close>. The parameter \<open>str\<close> is Python's \<open>str\<close> on the objects of
  \<open>unittest\<close>. Every child is a new object, so \<open>add_child\<close> appends each of them once,
  in the order of the suite.
\<close>

function TestNode_init :: "(unittest_obj \<Rightarrow> string) \<Rightarrow> unittest_obj \<Rightarrow> error + TestNode" where
  "TestNode_init str (TestCase cn cm meth run) =
     capture_import_failure (TestNode (TestCase cn cm meth run) (str (TestCase cn cm meth run)) not_run [])"
| "TestNode_init str (TestSuite cn cm ts) =
     (case first_raise
             (map (TestNode_init str)
                (filter (\<lambda>sub. is_TestCase sub \<or> countTestCases sub \<noteq> 0) ts)) of
        Inl e \<Rightarrow> Inl e
      | Inr cs \<Rightarrow>
          capture_import_failure
            (TestNode (TestSuite cn cm ts) (str (TestSuite cn cm ts)) not_run cs))"
  by pat_completeness auto
termination
  by (relation "measure (\<lambda>(str, t). size t)") (auto simp: less_Suc_eq_le size_list_estimation')

subsection \<open>Positions, and the model of the view\<close>

text \<open>
  A node is addressed by the rows from the root down to it; the empty position is the
  root, which the view addresses with the invalid \<open>QModelIndex()\<close>. \<open>node_at\<close> follows
  a position, \<open>modify_at\<close> changes the node at a position in place.
\<close>

fun node_at :: "TestNode \<Rightarrow> nat list \<Rightarrow> TestNode option" where
  "node_at n [] = Some n"
| "node_at n (row # rows) =
     (if row < length (children n) then node_at (children n ! row) rows else None)"

fun modify_at :: "(TestNode \<Rightarrow> TestNode) \<Rightarrow> nat list \<Rightarrow> TestNode \<Rightarrow> TestNode" where
  "modify_at f [] n = f n"
| "modify_at f (row # rows) (TestNode t tip st cs) =
     (if row < length cs then TestNode t tip st (cs[row := modify_at f rows (cs ! row)])
      else TestNode t tip st cs)"

fun set_status :: "TestStatus \<Rightarrow> TestNode \<Rightarrow> TestNode" where
  "set_status value (TestNode t tip st cs) = TestNode t tip value cs"

fun set_tool_tip :: "string \<Rightarrow> TestNode \<Rightarrow> TestNode" where
  "set_tool_tip value (TestNode t tip st cs) = TestNode t value st cs"

text \<open>
  \<open>TestNode.path\<close>, for the node at a position under the root: a node has a parent that
  has a parent when it lies two rows or more below the root.
\<close>

function path :: "TestNode \<Rightarrow> nat list \<Rightarrow> error + string" where
  "path root pos =
     (case node_at root pos of
        None \<Rightarrow> Inl AttributeError
      | Some self \<Rightarrow>
          if 2 \<le> length pos then
            (case path root (butlast pos) of
               Inl e \<Rightarrow> Inl e
             | Inr parent_path \<Rightarrow>
                 (case name self of
                    Inl e \<Rightarrow> Inl e
                  | Inr nm \<Rightarrow> Inr (parent_path @ ''.'' @ nm)))
          else name self)"
  by pat_completeness auto
termination
  by (relation "measure (\<lambda>(root, pos). length pos)") auto

declare path.simps [simp del]

text \<open>
  \<open>TestTreeModel\<close>: the root node and \<open>node_lookup\<close>, a dictionary from \<open>str(node.test)\<close>
  to the node, kept here as the position of the node. Storing under a key that is present
  replaces the value and keeps the place of the key.
\<close>

record TestTreeModel =
  root_node :: TestNode
  node_lookup :: "(string \<times> nat list) list"

fun create_node_lookup ::
    "(unittest_obj \<Rightarrow> string) \<Rightarrow> TestNode \<Rightarrow> nat list \<Rightarrow> (string \<times> nat list) list \<Rightarrow>
     (string \<times> nat list) list"
  and create_children_lookup ::
    "(unittest_obj \<Rightarrow> string) \<Rightarrow> TestNode list \<Rightarrow> nat list \<Rightarrow> nat \<Rightarrow> (string \<times> nat list) list \<Rightarrow>
     (string \<times> nat list) list" where
  "create_node_lookup str (TestNode t tip st cs) pos lookup =
     create_children_lookup str cs pos 0 (AList.update (str t) pos lookup)"
| "create_children_lookup str [] pos row lookup = lookup"
| "create_children_lookup str (c # cs) pos row lookup =
     create_children_lookup str cs pos (Suc row) (create_node_lookup str c (pos @ [row]) lookup)"

definition TestTreeModel_init :: "(unittest_obj \<Rightarrow> string) \<Rightarrow> TestNode \<Rightarrow> TestTreeModel" where
  "TestTreeModel_init str root =
     \<lparr>root_node = root, node_lookup = create_node_lookup str root [] []\<rparr>"

text \<open>
  \<open>TestTreeModel.setData\<close> on the tree under the root. The role and the value come
  together: the decoration role carries a status, the tool tip role a text. The index is
  the position of its \<open>internalPointer()\<close>; an index without a node has the pointer
  \<open>None\<close>, and setting an attribute of it raises. The signal \<open>dataChanged\<close> does not
  change the tree.
\<close>

datatype role = EditRole | DecorationRole TestStatus | ToolTipRole string

function setData :: "TestNode \<Rightarrow> nat list \<Rightarrow> role \<Rightarrow> error + TestNode" where
  "setData root index EditRole = Inr root"
| "setData root index (DecorationRole value) =
     (if index = [] \<or> node_at root index = None then Inl AttributeError
      else
        let root' = modify_at (set_status value) index root in
        if length index \<noteq> 1 then setData root' (butlast index) (DecorationRole value)
        else Inr root')"
| "setData root index (ToolTipRole value) =
     (if index = [] \<or> node_at root index = None then Inl AttributeError
      else Inr (modify_at (set_tool_tip value) index root))"
  by pat_completeness auto
termination
  by (relation "measure (\<lambda>(root, index, r). length index)") auto

text \<open>
  \<open>TestTreeModel._set_test_result_data\<close>: for each test of a result list, the tool tip
  and then the status of its node are set through \<open>setData\<close>. A test that is not a key
  of the lookup raises \<open>KeyError\<close>.
\<close>

fun set_test_result_data ::
    "(unittest_obj \<Rightarrow> string) \<Rightarrow> TestTreeModel \<Rightarrow> (unittest_obj \<times> string) list \<Rightarrow> TestStatus \<Rightarrow>
     error + TestTreeModel" where
  "set_test_result_data str m [] st = Inr m"
| "set_test_result_data str m ((t, reason) # test_list) st =
     (case map_of (node_lookup m) (str t) of
        None \<Rightarrow> Inl KeyError
      | Some index \<Rightarrow>
          (case setData (root_node m) index (ToolTipRole reason) of
             Inl e \<Rightarrow> Inl e
           | Inr root1 \<Rightarrow>
               (case setData root1 index (DecorationRole st) of
                  Inl e \<Rightarrow> Inl e
                | Inr root2 \<Rightarrow>
                    set_test_result_data str (m\<lparr>root_node := root2\<rparr>) test_list st)))"

text \<open>
  \<open>MayaTestRunnerDialog.run_failed_tests\<close>: the loop over \<open>node_lookup.values()\<close>. The
  result lists the calls of \<open>mayaunittest.get_tests\<close> in order, each as the node it is
  made for and the \<open>test\<close> argument it passes; loading the tests of that name into the
  suite is the work of \<open>unittest\<close>.
\<close>

fun failed_tests_loop :: "TestNode \<Rightarrow> nat list list \<Rightarrow> error + (nat list \<times> string) list" where
  "failed_tests_loop root [] = Inr []"
| "failed_tests_loop root (pos # rest) =
     (case node_at root pos of
        None \<Rightarrow> Inl AttributeError
      | Some node \<Rightarrow>
          if is_TestCase (test node) then
            (case get_status node of
               Inl e \<Rightarrow> Inl e
             | Inr st \<Rightarrow>
                 if st \<in> {fail, error} then
                   (case path root pos of
                      Inl e \<Rightarrow> Inl e
                    | Inr p \<Rightarrow>
                        (case failed_tests_loop root rest of
                           Inl e \<Rightarrow> Inl e
                         | Inr calls \<Rightarrow> Inr ((pos, p) # calls)))
                 else failed_tests_loop root rest)
          else failed_tests_loop root rest)"

definition run_failed_tests :: "TestTreeModel \<Rightarrow> error + (nat list \<times> string) list" where
  "run_failed_tests m = failed_tests_loop (root_node m) (map snd (node_lookup m))"


subsection \<open>The rule of the specification, and the shape of a tree\<close>


text \<open>A node and all its descendants, the node first.\<close>

fun subnodes :: "TestNode \<Rightarrow> TestNode list" where
  "subnodes (TestNode t tip st cs) = TestNode t tip st cs # concat (map subnodes cs)"


text \<open>
  The nodes that the "run failed" action is to take, in the words of the specification:
  the node at the position is a leaf, its test is a test case, and its status is
  \<open>fail\<close> or \<open>error\<close>.
\<close>

definition is_failed_test :: "TestNode \<Rightarrow> nat list \<Rightarrow> bool" where
  "is_failed_test root pos =
     (case node_at root pos of
        None \<Rightarrow> False
      | Some node \<Rightarrow>
          is_TestCase (test node) \<and> children node = [] \<and>
          (get_status node = Inr fail \<or> get_status node = Inr error))"

text \<open>
  What \<open>TestNode.__init__\<close> establishes: a test case has no children; a suite below the
  root is only added with \<open>countTestCases()\<close> above zero, and so has a child. The suite
  at the root may be empty.
\<close>

fun wf_node :: "TestNode \<Rightarrow> bool" where
  "wf_node (TestNode t tip st cs) =
     (if is_TestCase t then cs = [] else cs \<noteq> [] \<and> (\<forall>c\<in>set cs. wf_node c))"

definition wf_tree :: "TestNode \<Rightarrow> bool" where
  "wf_tree root \<longleftrightarrow>
     (if is_TestCase (test root) then children root = []
      else \<forall>c\<in>set (children root). wf_node c)"

section \<open>The output stream of mayaunittestui.py\<close>

text \<open>
  \<open>QColor(r, g, b)\<close>, and what \<open>TestCaptureStream\<close> uses of a \<open>QTextEdit\<close>: the
  current text colour, and the inserted texts, each with the colour it was inserted in.
\<close>

type_synonym QColor = "nat \<times> nat \<times> nat"

record QTextEdit =
  textColor :: QColor
  plainText :: "(string \<times> QColor) list"

definition success_color :: QColor where "success_color = (92, 184, 92)"
definition fail_color :: QColor where "fail_color = (240, 173, 78)"
definition error_color :: QColor where "error_color = (217, 83, 79)"
definition skip_color :: QColor where "skip_color = (88, 165, 204)"
definition normal_color :: QColor where "normal_color = (200, 200, 200)"

definition setTextColor :: "QColor \<Rightarrow> QTextEdit \<Rightarrow> QTextEdit" where
  "setTextColor c text_edit = text_edit\<lparr>textColor := c\<rparr>"

definition insertPlainText :: "string \<Rightarrow> QTextEdit \<Rightarrow> QTextEdit" where
  "insertPlainText text text_edit =
     text_edit\<lparr>plainText := plainText text_edit @ [(text, textColor text_edit)]\<rparr>"

text \<open>\<open>TestCaptureStream.write\<close>; \<open>text.startswith(p)\<close> is \<open>prefix p text\<close>.\<close>

definition TestCaptureStream_write :: "QTextEdit \<Rightarrow> string \<Rightarrow> QTextEdit" where
  "TestCaptureStream_write text_edit text =
     (let text_edit1 =
            (if prefix ''ok'' text then setTextColor success_color text_edit
             else if prefix ''FAIL'' text then setTextColor fail_color text_edit
             else if prefix ''ERROR'' text then setTextColor error_color text_edit
             else if prefix ''skipped'' text then setTextColor skip_color text_edit
             else text_edit)
      in setTextColor normal_color (insertPlainText text text_edit1))"

section \<open>Settings and temporary files of mayaunittest.py\<close>

text \<open>
  \<open>os.path.join\<close> on POSIX: a component that starts with the separator replaces what
  came before; otherwise it is appended, after a separator unless the path so far is
  empty or ends with one.
\<close>

definition join2 :: "string \<Rightarrow> string \<Rightarrow> string" where
  "join2 a b =
     (if prefix ''/'' b then b
      else if a = [] \<or> last a = CHR ''/'' then a @ b
      else a @ ''/'' @ b)"

definition os_path_join :: "string \<Rightarrow> string list \<Rightarrow> string" where
  "os_path_join a p = foldl join2 a p"

text \<open>
  \<open>str(uuid.uuid4())\<close> is 36 characters, hexadecimal digits in groups of 8, 4, 4, 4 and
  12 with a hyphen between the groups.
\<close>

definition is_uuid_str :: "string \<Rightarrow> bool" where
  "is_uuid_str u \<longleftrightarrow>
     length u = 36 \<and>
     (\<forall>i < 36. if i \<in> {8, 13, 18, 23} then u ! i = CHR ''-''
                else u ! i \<in> set ''0123456789abcdef'')"

text \<open>
  \<open>class Settings\<close>. Its class body runs once, when the module is imported:
  \<open>gettempdir\<close> is \<open>tempfile.gettempdir()\<close> and \<open>uuid4\<close> is \<open>str(uuid.uuid4())\<close> of
  that run.
\<close>

record Settings =
  temp_dir :: string
  delete_files :: bool
  buffer_output :: bool
  file_new :: bool

definition Settings_init :: "string \<Rightarrow> string \<Rightarrow> Settings" where
  "Settings_init gettempdir uuid4 =
     \<lparr>temp_dir = os_path_join gettempdir [''mayaunittest'', uuid4],
      delete_files = True, buffer_output = False, file_new = True\<rparr>"

text \<open>
  The file system, by path: what is at a path, if anything. \<open>os.path.exists\<close>,
  \<open>os.remove\<close> (which raises on a directory) and \<open>shutil.rmtree\<close> (which raises on
  what is not a directory, and otherwise removes the directory and all below it).
\<close>

datatype entry = File | Directory

type_synonym filesystem = "string \<Rightarrow> entry option"

definition os_path_exists :: "filesystem \<Rightarrow> string \<Rightarrow> bool" where
  "os_path_exists fs p \<longleftrightarrow> fs p \<noteq> None"

definition os_remove :: "filesystem \<Rightarrow> string \<Rightarrow> error + filesystem" where
  "os_remove fs p = (if fs p = Some File then Inr (fs(p := None)) else Inl OSError)"

definition shutil_rmtree :: "filesystem \<Rightarrow> string \<Rightarrow> error + filesystem" where
  "shutil_rmtree fs d =
     (if fs d = Some Directory
      then Inr (\<lambda>p. if p = d \<or> prefix (d @ ''/'') p then None else fs p)
      else Inl OSError)"

text \<open>\<open>set_temp_dir\<close>: the outcome of the call and the settings after it.\<close>

definition set_temp_dir :: "filesystem \<Rightarrow> string \<Rightarrow> Settings \<Rightarrow> (error + unit) \<times> Settings" where
  "set_temp_dir fs directory s =
     (if os_path_exists fs directory then (Inr (), s\<lparr>temp_dir := directory\<rparr>)
      else (Inl (RuntimeError (directory @ '' does not exist.'')), s))"

text \<open>
  The class attributes of \<open>mayaunittest.TestCase\<close> that the clean-up touches:
  \<open>files_created\<close>, and \<open>files_create\<close>, which the class does not have until
  \<open>delete_temp_files\<close> assigns it.
\<close>

record TestCase_cls =
  files_created :: "string list"
  files_create :: "string list option"

text \<open>The \<open>for\<close> loop of \<open>delete_temp_files\<close>: the outcome and the file system after it.\<close>

fun remove_created :: "string list \<Rightarrow> filesystem \<Rightarrow> (error + unit) \<times> filesystem" where
  "remove_created [] fs = (Inr (), fs)"
| "remove_created (f # rest) fs =
     (if os_path_exists fs f then
        (case os_remove fs f of
           Inl e \<Rightarrow> (Inl e, fs)
         | Inr fs' \<Rightarrow> remove_created rest fs')
      else remove_created rest fs)"

text \<open>\<open>TestCase.delete_temp_files\<close>.\<close>

definition delete_temp_files ::
    "Settings \<Rightarrow> TestCase_cls \<Rightarrow> filesystem \<Rightarrow> (error + unit) \<times> TestCase_cls \<times> filesystem" where
  "delete_temp_files s cls fs =
     (if delete_files s then
        (case remove_created (files_created cls) fs of
           (Inl e, fs1) \<Rightarrow> (Inl e, cls, fs1)
         | (Inr _, fs1) \<Rightarrow>
             let cls1 = cls\<lparr>files_create := Some []\<rparr> in
             if os_path_exists fs1 (temp_dir s) then
               (case shutil_rmtree fs1 (temp_dir s) of
                  Inl e \<Rightarrow> (Inl e, cls1, fs1)
                | Inr fs2 \<Rightarrow> (Inr (), cls1, fs2))
             else (Inr (), cls1, fs1))
      else (Inr (), cls, fs))"

section \<open>Example trees\<close>

text \<open>
  Test cases of a class \<open>SampleTests\<close> in a module \<open>test_sample\<close>, leaves with a given
  status, and suites over given children.
\<close>

definition sample_case :: "string \<Rightarrow> unittest_obj" where
  "sample_case meth = TestCase ''SampleTests'' ''test_sample'' meth None"

definition leaf_node :: "unittest_obj \<Rightarrow> TestStatus \<Rightarrow> TestNode" where
  "leaf_node t st = TestNode t ''tip'' st []"

definition suite_node :: "TestNode list \<Rightarrow> TestNode" where
  "suite_node cs = TestNode (TestSuite ''TestSuite'' ''unittest.suite'' (map test cs)) ''tip'' not_run cs"


text \<open>Three tests of one class: passed, failed, skipped.\<close>

definition mixed_suite :: TestNode where
  "mixed_suite = suite_node
     [leaf_node (sample_case ''test_a'') success,
      leaf_node (sample_case ''test_b'') fail,
      leaf_node (sample_case ''test_c'') skipped]"




text \<open>
  \<open>str\<close> of the objects of \<open>unittest\<close>, as Python 3 before 3.11 prints them: a test
  case as \<open>method (module.Class)\<close>, a suite by its \<open>repr\<close>, which lists the \<open>repr\<close>
  of its tests. An instance for the parameter \<open>str\<close> of the constructors.
\<close>

fun join_comma :: "string list \<Rightarrow> string" where
  "join_comma [] = []"
| "join_comma [x] = x"
| "join_comma (x # y # ys) = x @ '', '' @ join_comma (y # ys)"

fun unittest_repr :: "unittest_obj \<Rightarrow> string" where
  "unittest_repr (TestCase cn cm meth run) = ''<'' @ cm @ ''.'' @ cn @ '' testMethod='' @ meth @ ''>''"
| "unittest_repr (TestSuite cn cm ts) =
     ''<'' @ cm @ ''.'' @ cn @ '' tests=['' @ join_comma (map unittest_repr ts) @ '']>''"

fun unittest_str :: "unittest_obj \<Rightarrow> string" where
  "unittest_str (TestCase cn cm meth run) = meth @ '' ('' @ cm @ ''.'' @ cn @ '')''"
| "unittest_str (TestSuite cn cm ts) = unittest_repr (TestSuite cn cm ts)"

text \<open>Test cases of a second class of the same module.\<close>

definition other_case :: "string \<Rightarrow> unittest_obj" where
  "other_case meth = TestCase ''OtherTests'' ''test_sample'' meth None"

text \<open>
  The tree of a run: the root suite, the suite of the module, and the suites of two
  classes, with tests in each of the five statuses; and the model of the view over it.
\<close>

definition ran_tree :: TestNode where
  "ran_tree = suite_node [suite_node
     [suite_node [leaf_node (sample_case ''test_a'') success,
                  leaf_node (sample_case ''test_b'') fail],
      suite_node [leaf_node (other_case ''test_c'') error,
                  leaf_node (other_case ''test_d'') skipped,
                  leaf_node (other_case ''test_e'') not_run]]]"

definition ran_model :: TestTreeModel where
  "ran_model = TestTreeModel_init unittest_str ran_tree"

text \<open>
  The tree before a run, and the same tree after the run reported the failure of
  \<open>test_b\<close> with the reason \<open>AssertionError\<close>.
\<close>

definition fresh_tree :: TestNode where
  "fresh_tree = suite_node [suite_node
     [suite_node [leaf_node (sample_case ''test_a'') not_run,
                  leaf_node (sample_case ''test_b'') not_run]]]"

definition after_failure :: TestNode where
  "after_failure =
     TestNode (test fresh_tree) ''tip'' not_run
       [TestNode (TestSuite ''TestSuite'' ''unittest.suite''
            [TestSuite ''TestSuite'' ''unittest.suite'' [sample_case ''test_a'', sample_case ''test_b'']])
          ''tip'' fail
          [TestNode (TestSuite ''TestSuite'' ''unittest.suite'' [sample_case ''test_a'', sample_case ''test_b''])
             ''tip'' fail
             [TestNode (sample_case ''test_a'') ''tip'' not_run [],
              TestNode (sample_case ''test_b'') ''AssertionError'' fail []]]]"

text \<open>
  The test that the loader of Python 3.5 and later creates for a module \<open>test_broken\<close>
  that fails to import.
\<close>

definition failed_import :: unittest_obj where
  "failed_import =
     TestCase ''_FailedTest'' ''unittest.loader'' ''test_broken''
       (Some (ImportError ''ImportError: Failed to import test module: test_broken''))"

section \<open>Example streams, settings and files\<close>

text \<open>A text edit that nothing was written to yet, with black as its text colour.\<close>

definition fresh_text_edit :: QTextEdit where
  "fresh_text_edit = \<lparr>textColor = (0, 0, 0), plainText = []\<rparr>"

text \<open>A file system with a directory \<open>/tmp/work\<close> and files in and outside of it.\<close>

definition sample_fs :: filesystem where
  "sample_fs = [''/tmp/work'' \<mapsto> Directory, ''/tmp/work/a.txt'' \<mapsto> File, ''/tmp/work/sub'' \<mapsto> Directory,
     ''/tmp/work/sub/b.txt'' \<mapsto> File, ''/tmp/other.txt'' \<mapsto> File]"

text \<open>The settings of a run whose temporary directory is \<open>/tmp\<close>.\<close>

definition sample_settings :: Settings where
  "sample_settings = Settings_init ''/tmp'' ''123e4567-e89b-42d3-a456-426614174000''"

text \<open>
  Settings with \<open>/tmp/work\<close> as the temporary directory, and a test case class for
  which one file name in it was registered.
\<close>

definition work_settings :: Settings where
  "work_settings = \<lparr>temp_dir = ''/tmp/work'', delete_files = True, buffer_output = False, file_new = True\<rparr>"

definition registered :: TestCase_cls where
  "registered = \<lparr>files_created = [''/tmp/work/a.txt''], files_create = None\<rparr>"

section \<open>Properties of the test tree\<close>


subsection \<open>Children by row\<close>

text \<open>
  C10: for a row at or beyond the number of children, \<open>child\<close> returns \<open>None\<close>; for a
  row from 0 up to the number of children, it returns the element of \<open>children\<close> at that
  row.
\<close>

theorem child_in_and_out_of_range:
  "(int (child_count n) \<le> row \<longrightarrow> child n row = None) \<and>
   (0 \<le> row \<and> row < int (child_count n) \<longrightarrow> child n row = Some (children n ! nat row))"
  by (simp add: child_def child_count_def Let_def)

theorem child_in_and_out_of_range_witness:
  "int (child_count mixed_suite) \<le> 3 \<and> child mixed_suite 3 = None \<and>
   (0::int) \<le> 1 \<and> 1 < int (child_count mixed_suite) \<and>
   child mixed_suite 1 = Some (leaf_node (sample_case ''test_b'') fail)"
  using child_in_and_out_of_range [of mixed_suite 3] child_in_and_out_of_range [of mixed_suite 1]
  by (simp add: child_count_def mixed_suite_def suite_node_def)

lemma child_0: "children n \<noteq> [] \<Longrightarrow> child n 0 = Some (hd (children n))"
  by (simp add: child_def Let_def hd_conv_nth)

subsection \<open>The loop of get_status\<close>





lemma subnodes_self: "n \<in> set (subnodes n)"
  by (cases n) simp

lemma subnodes_child: "c \<in> set (children n) \<Longrightarrow> set (subnodes c) \<subseteq> set (subnodes n)"
  by (cases n) auto




lemma name_returns:
  assumes leaves: "\<forall>m\<in>set (subnodes n). children m = [] \<longrightarrow> is_TestCase (test m)"
  shows "\<exists>nm. name n = Inr nm"
proof (cases "test n")
  case (TestCase cn cm meth run)
  then show ?thesis by (simp add: name_def)
next
  case (TestSuite cn cm ts)
  have n_in: "n \<in> set (subnodes n)" by (rule subnodes_self)
  have "children n \<noteq> []" using leaves n_in TestSuite by fastforce
  then have c0: "child n 0 = Some (hd (children n))" and c_in: "hd (children n) \<in> set (children n)"
    by (simp_all add: child_0)
  let ?c = "hd (children n)"
  show ?thesis
  proof (cases "is_TestCase (test ?c)")
    case True
    then show ?thesis using TestSuite c0 by (simp add: name_def)
  next
    case False
    have "?c \<in> set (subnodes n)" using c_in subnodes_child subnodes_self by blast
    then have "children ?c \<noteq> []" using leaves False by blast
    then have "child ?c 0 = Some (hd (children ?c))" by (rule child_0)
    then show ?thesis using TestSuite c0 False by (simp add: name_def)
  qed
qed






subsection \<open>The constructor\<close>

lemma first_raise_Inr: "first_raise rs = Inr vs \<Longrightarrow> rs = map Inr vs"
  by (induction rs arbitrary: vs) (auto split: sum.splits)

lemma capture_import_failure_keeps:
  "capture_import_failure n = Inr n' \<Longrightarrow>
   test n' = test n \<and> children n' = children n \<and> status n' = status n"
  by (auto simp: capture_import_failure_def split: if_splits sum.splits option.splits error.splits)

lemma wf_node_case: "is_TestCase (test n) \<Longrightarrow> children n = [] \<Longrightarrow> wf_node n"
  by (cases n) simp

lemma wf_node_suite:
  "\<not> is_TestCase (test n) \<Longrightarrow> children n \<noteq> [] \<Longrightarrow> \<forall>c\<in>set (children n). wf_node c \<Longrightarrow>
   wf_node n"
  by (cases n) simp

lemma countTestCases_suite_pos:
  "countTestCases (TestSuite cn cm ts) \<noteq> 0 \<Longrightarrow>
   filter (\<lambda>sub. is_TestCase sub \<or> countTestCases sub \<noteq> 0) ts \<noteq> []"
proof -
  assume "countTestCases (TestSuite cn cm ts) \<noteq> 0"
  then have "sum_list (map countTestCases ts) \<noteq> 0" by simp
  then obtain x where "x \<in> set ts" "countTestCases x \<noteq> 0"
    by (induction ts) (auto split: if_splits)
  then show ?thesis by (auto simp: filter_empty_conv)
qed

lemma TestNode_init_shape:
  "TestNode_init str t = Inr n \<Longrightarrow>
   test n = t \<and> status n = not_run \<and> wf_tree n \<and>
   (is_TestCase t \<or> countTestCases t \<noteq> 0 \<longrightarrow> wf_node n)"
proof (induction str t arbitrary: n rule: TestNode_init.induct)
  case (1 str cn cm meth run)
  then show ?case
    using capture_import_failure_keeps
      [of "TestNode (TestCase cn cm meth run) (str (TestCase cn cm meth run)) not_run []" n]
    by (auto simp: wf_tree_def intro: wf_node_case)
next
  case (2 str cn cm ts)
  let ?keep = "filter (\<lambda>sub. is_TestCase sub \<or> countTestCases sub \<noteq> 0) ts"
  from "2.prems" obtain cs where
    cs: "first_raise (map (TestNode_init str) ?keep) = Inr cs" and
    cap: "capture_import_failure
            (TestNode (TestSuite cn cm ts) (str (TestSuite cn cm ts)) not_run cs) = Inr n"
    by (auto split: sum.splits)
  have fields: "test n = TestSuite cn cm ts" "children n = cs" "status n = not_run"
    using capture_import_failure_keeps [OF cap] by simp_all
  have maps: "map (TestNode_init str) ?keep = map Inr cs"
    using first_raise_Inr [OF cs] .
  have wf_children: "\<forall>c\<in>set cs. wf_node c"
  proof
    fix c assume "c \<in> set cs"
    then obtain i where i: "i < length cs" "cs ! i = c"
      by (auto simp: in_set_conv_nth)
    have len: "length ?keep = length cs" using maps by (metis length_map)
    define sub where "sub = ?keep ! i"
    have "map (TestNode_init str) ?keep ! i = map Inr cs ! i" using maps by simp
    then have init: "TestNode_init str sub = Inr c" using i len by (simp add: sub_def)
    have mem: "sub \<in> set ?keep" using i len unfolding sub_def by (metis nth_mem)
    have keep: "is_TestCase sub \<or> countTestCases sub \<noteq> 0" using mem by simp
    show "wf_node c" using "2.IH" [OF mem init] keep by blast
  qed
  have "countTestCases (TestSuite cn cm ts) \<noteq> 0 \<longrightarrow> cs \<noteq> []"
  proof
    assume "countTestCases (TestSuite cn cm ts) \<noteq> 0"
    then have "?keep \<noteq> []" by (rule countTestCases_suite_pos)
    then have "map (TestNode_init str) ?keep \<noteq> []" by simp
    then show "cs \<noteq> []" using maps by auto
  qed
  then have "countTestCases (TestSuite cn cm ts) \<noteq> 0 \<longrightarrow> wf_node n"
    using fields wf_children wf_node_suite [of n] by simp
  moreover have "wf_tree n" using fields wf_children by (simp add: wf_tree_def)
  ultimately show ?case using fields by simp
qed

text \<open>
  What the constructor and \<open>get_status\<close> do for a test case whose class is named
  \<open>ModuleImportFailure\<close> and whose method raises \<open>ImportError\<close>: the exception is
  caught, the tool tip is the formatted traceback, and the status is \<open>error\<close>.
\<close>

lemma ModuleImportFailure_captured:
  "TestNode_init str (TestCase ''ModuleImportFailure'' cm meth (Some (ImportError format_exc))) =
     Inr (TestNode (TestCase ''ModuleImportFailure'' cm meth (Some (ImportError format_exc)))
            format_exc not_run []) \<and>
   tool_tip (TestNode (TestCase ''ModuleImportFailure'' cm meth (Some (ImportError format_exc)))
            format_exc not_run []) = format_exc \<and>
   get_status (TestNode (TestCase ''ModuleImportFailure'' cm meth (Some (ImportError format_exc)))
            format_exc not_run []) = Inr error"
  by (simp add: capture_import_failure_def name_def)

text \<open>
  C5 fails on the code. The source needs Python 3.6 or later, whose loader wraps a failed
  import in a test case of class \<open>_FailedTest\<close> of the module \<open>unittest.loader\<close>, with
  the name of the module as the method that raises the \<open>ImportError\<close>. For that test the
  comparisons with \<open>ModuleImportFailure\<close> are false: the constructor does not call the
  method, the tool tip stays \<open>str(test)\<close>, and \<open>get_status\<close> of the node and of the
  suite over it is \<open>not_run\<close>.
\<close>

theorem import_failure_not_captured:
  "TestNode_init unittest_str failed_import =
     Inr (TestNode failed_import ''test_broken (unittest.loader._FailedTest)'' not_run []) \<and>
   get_status (TestNode failed_import ''test_broken (unittest.loader._FailedTest)'' not_run []) =
     Inr not_run \<and>
   get_status (suite_node
       [TestNode failed_import ''test_broken (unittest.loader._FailedTest)'' not_run []]) =
     Inr not_run"
  by (simp add: failed_import_def capture_import_failure_def name_def child_def suite_node_def)

section \<open>Properties of the output stream\<close>

text \<open>
  C4, as amended: a text that begins with \<open>ok\<close>, \<open>FAIL\<close>, \<open>ERROR\<close> or \<open>skipped\<close> is
  inserted in the success, fail, error or skip colour; any other text is inserted in the
  colour the text edit has at the call; and every \<open>write\<close> leaves the text edit with the
  normal colour, so that any other text written after a \<open>write\<close> is inserted in the
  normal colour.
\<close>

theorem write_colors:
  "(prefix ''ok'' text \<longrightarrow>
      plainText (TestCaptureStream_write te text) = plainText te @ [(text, success_color)]) \<and>
   (prefix ''FAIL'' text \<longrightarrow>
      plainText (TestCaptureStream_write te text) = plainText te @ [(text, fail_color)]) \<and>
   (prefix ''ERROR'' text \<longrightarrow>
      plainText (TestCaptureStream_write te text) = plainText te @ [(text, error_color)]) \<and>
   (prefix ''skipped'' text \<longrightarrow>
      plainText (TestCaptureStream_write te text) = plainText te @ [(text, skip_color)]) \<and>
   (\<not> prefix ''ok'' text \<and> \<not> prefix ''FAIL'' text \<and> \<not> prefix ''ERROR'' text \<and>
    \<not> prefix ''skipped'' text \<longrightarrow>
      plainText (TestCaptureStream_write te text) = plainText te @ [(text, textColor te)]) \<and>
   textColor (TestCaptureStream_write te text) = normal_color"
  by (auto simp: TestCaptureStream_write_def setTextColor_def insertPlainText_def Let_def
        prefix_def)

theorem write_colors_witness:
  "plainText (TestCaptureStream_write fresh_text_edit ''FAIL: test_b (test_sample.SampleTests)'') =
     [(''FAIL: test_b (test_sample.SampleTests)'', fail_color)] \<and>
   plainText (TestCaptureStream_write
       (TestCaptureStream_write fresh_text_edit ''FAIL: test_b (test_sample.SampleTests)'')
       ''Traceback (most recent call last):'') =
     [(''FAIL: test_b (test_sample.SampleTests)'', fail_color),
      (''Traceback (most recent call last):'', normal_color)]"
proof -
  let ?t1 = "''FAIL: test_b (test_sample.SampleTests)''"
  let ?t2 = "''Traceback (most recent call last):''"
  have p1: "prefix ''FAIL'' ?t1" by simp
  have p2: "\<not> prefix ''ok'' ?t2 \<and> \<not> prefix ''FAIL'' ?t2 \<and> \<not> prefix ''ERROR'' ?t2 \<and>
    \<not> prefix ''skipped'' ?t2" by simp
  have first: "plainText (TestCaptureStream_write fresh_text_edit ?t1) = [(?t1, fail_color)]"
    using write_colors [of ?t1 fresh_text_edit] p1 by (simp add: fresh_text_edit_def)
  have col: "textColor (TestCaptureStream_write fresh_text_edit ?t1) = normal_color"
    using write_colors [of ?t1 fresh_text_edit] by blast
  have "plainText (TestCaptureStream_write (TestCaptureStream_write fresh_text_edit ?t1) ?t2) =
      plainText (TestCaptureStream_write fresh_text_edit ?t1) @
      [(?t2, textColor (TestCaptureStream_write fresh_text_edit ?t1))]"
    using write_colors [of ?t2 "TestCaptureStream_write fresh_text_edit ?t1"] p2 by blast
  then show ?thesis using first col by simp
qed

text \<open>
  C4 as stated fails on the first \<open>write\<close> to a text edit whose colour is not the normal
  colour: a text with none of the four prefixes is inserted in the colour of the text
  edit.
\<close>

theorem write_colors_counterexample:
  "plainText (TestCaptureStream_write fresh_text_edit ''test_a (test_sample.SampleTests) ... '') =
     [(''test_a (test_sample.SampleTests) ... '', (0, 0, 0))] \<and>
   (0, 0, 0) \<noteq> normal_color"
  by (simp add: TestCaptureStream_write_def setTextColor_def insertPlainText_def Let_def
        fresh_text_edit_def normal_color_def)

section \<open>Properties of the settings and the temporary files\<close>

lemma uuid_no_sep: "is_uuid_str u \<Longrightarrow> \<not> prefix ''/'' u"
proof -
  assume u: "is_uuid_str u"
  then have len: "length u = 36" by (simp add: is_uuid_str_def)
  have "\<forall>i<36. if i \<in> {8, 13, 18, 23} then u ! i = CHR ''-''
                else u ! i \<in> set ''0123456789abcdef''"
    using u unfolding is_uuid_str_def by blast
  then have "u ! 0 \<in> set ''0123456789abcdef''"
    by (elim allE [of _ 0]) simp
  then have first: "u ! 0 \<noteq> CHR ''/''" by auto
  obtain c rest where "u = c # rest" using len by (cases u) auto
  then show ?thesis using first by auto
qed

text \<open>
  C6: the initial \<open>Settings.temp_dir\<close> is the temporary directory of the system, the
  component \<open>mayaunittest\<close> and the uuid string, joined by \<open>os.path.join\<close>: for a
  temporary directory that is not empty and does not end with the separator,
  \<open>gettempdir/mayaunittest/uuid\<close>. Runs with different uuid strings have different
  temporary directories.
\<close>

theorem temp_dir_initial:
  assumes "is_uuid_str uuid4"
  shows "temp_dir (Settings_init gettempdir uuid4) =
           (if gettempdir = [] \<or> last gettempdir = CHR ''/'' then gettempdir
            else gettempdir @ ''/'') @ ''mayaunittest/'' @ uuid4 \<and>
         (gettempdir \<noteq> [] \<and> last gettempdir \<noteq> CHR ''/'' \<longrightarrow>
            temp_dir (Settings_init gettempdir uuid4) = gettempdir @ ''/mayaunittest/'' @ uuid4) \<and>
         (is_uuid_str other \<and> other \<noteq> uuid4 \<longrightarrow>
            temp_dir (Settings_init gettempdir other) \<noteq> temp_dir (Settings_init gettempdir uuid4))"
proof -
  have form: "temp_dir (Settings_init gettempdir u) =
           (if gettempdir = [] \<or> last gettempdir = CHR ''/'' then gettempdir
            else gettempdir @ ''/'') @ ''mayaunittest/'' @ u" if "is_uuid_str u" for u
    using uuid_no_sep [OF that]
    by (simp add: Settings_init_def os_path_join_def join2_def)
  show ?thesis using form [OF assms] form [of other] by auto
qed

theorem temp_dir_initial_witness:
  "temp_dir (Settings_init ''/tmp'' ''123e4567-e89b-42d3-a456-426614174000'') =
     ''/tmp/mayaunittest/123e4567-e89b-42d3-a456-426614174000'' \<and>
   temp_dir (Settings_init ''/tmp'' ''9f1c2b7e-0d4a-4c59-8e21-5b6a7c8d9e0f'') \<noteq>
     temp_dir (Settings_init ''/tmp'' ''123e4567-e89b-42d3-a456-426614174000'')"
proof -
  have a: "is_uuid_str ''123e4567-e89b-42d3-a456-426614174000''"
    and b: "is_uuid_str ''9f1c2b7e-0d4a-4c59-8e21-5b6a7c8d9e0f''"
    by (simp_all add: is_uuid_str_def All_less_Suc2 numeral_eq_Suc)
  note t = temp_dir_initial [OF a, of "''/tmp''" "''9f1c2b7e-0d4a-4c59-8e21-5b6a7c8d9e0f''"]
  have form: "temp_dir (Settings_init ''/tmp'' ''123e4567-e89b-42d3-a456-426614174000'') =
     ''/tmp/mayaunittest/123e4567-e89b-42d3-a456-426614174000''"
    using t by simp
  have "''9f1c2b7e-0d4a-4c59-8e21-5b6a7c8d9e0f'' \<noteq> ''123e4567-e89b-42d3-a456-426614174000''"
    by simp
  then have other: "temp_dir (Settings_init ''/tmp'' ''9f1c2b7e-0d4a-4c59-8e21-5b6a7c8d9e0f'') \<noteq>
     temp_dir (Settings_init ''/tmp'' ''123e4567-e89b-42d3-a456-426614174000'')"
    using t b by blast
  show ?thesis by (intro conjI) (rule form, rule other)
qed

text \<open>
  C9: \<open>set_temp_dir\<close> on a directory that exists returns and sets \<open>temp_dir\<close> to it;
  on a directory that does not exist it raises \<open>RuntimeError\<close> and leaves the settings
  as they were.
\<close>

theorem set_temp_dir_sets_or_raises:
  "(os_path_exists fs directory \<longrightarrow>
      set_temp_dir fs directory s = (Inr (), s\<lparr>temp_dir := directory\<rparr>)) \<and>
   (\<not> os_path_exists fs directory \<longrightarrow>
      fst (set_temp_dir fs directory s) = Inl (RuntimeError (directory @ '' does not exist.'')) \<and>
      snd (set_temp_dir fs directory s) = s)"
  by (simp add: set_temp_dir_def)

theorem set_temp_dir_sets_or_raises_witness:
  "os_path_exists sample_fs ''/tmp/work'' \<and>
   temp_dir (snd (set_temp_dir sample_fs ''/tmp/work'' sample_settings)) = ''/tmp/work'' \<and>
   fst (set_temp_dir sample_fs ''/tmp/work'' sample_settings) = Inr () \<and>
   \<not> os_path_exists sample_fs ''/tmp/gone'' \<and>
   fst (set_temp_dir sample_fs ''/tmp/gone'' sample_settings) = Inl (RuntimeError ''/tmp/gone does not exist.'') \<and>
   snd (set_temp_dir sample_fs ''/tmp/gone'' sample_settings) = sample_settings"
proof -
  have a: "os_path_exists sample_fs ''/tmp/work''" "\<not> os_path_exists sample_fs ''/tmp/gone''"
    by (simp_all add: os_path_exists_def sample_fs_def)
  show ?thesis
    using set_temp_dir_sets_or_raises [of sample_fs "''/tmp/work''" sample_settings]
      set_temp_dir_sets_or_raises [of sample_fs "''/tmp/gone''" sample_settings] a
    by simp
qed

text \<open>
  \<open>delete_temp_files\<close> never changes \<open>files_created\<close>: the list it empties is the new
  attribute \<open>files_create\<close>.
\<close>

lemma delete_temp_files_files_created:
  "files_created (fst (snd (delete_temp_files s cls fs))) = files_created cls"
  by (auto simp: delete_temp_files_def Let_def split: prod.splits sum.splits)

text \<open>
  C8 fails on the code: with \<open>delete_files\<close> true and one registered file, the call
  returns, the file and the temporary directory are removed, and \<open>files_created\<close> still
  holds the path of the file.
\<close>

theorem delete_temp_files_keeps_registry:
  "fst (delete_temp_files work_settings registered sample_fs) = Inr () \<and>
   files_created (fst (snd (delete_temp_files work_settings registered sample_fs))) = [''/tmp/work/a.txt''] \<and>
   files_create (fst (snd (delete_temp_files work_settings registered sample_fs))) = Some [] \<and>
   snd (snd (delete_temp_files work_settings registered sample_fs)) ''/tmp/work/a.txt'' = None \<and>
   snd (snd (delete_temp_files work_settings registered sample_fs)) ''/tmp/work'' = None \<and>
   snd (snd (delete_temp_files work_settings registered sample_fs)) ''/tmp/other.txt'' = Some File"
  by (simp add: delete_temp_files_def work_settings_def registered_def sample_fs_def
        os_path_exists_def os_remove_def shutil_rmtree_def Let_def)

section \<open>Properties of the model of the view\<close>

subsection \<open>Statuses written by setData\<close>

lemma set_status_fields:
  "test (set_status v n) = test n" "children (set_status v n) = children n"
  "status (set_status v n) = v" "tool_tip (set_status v n) = tool_tip n"
  by (cases n; simp)+

lemma status_at_modify:
  "map_option status (node_at (modify_at (set_status v) p r) q) =
     (if q = p \<and> node_at r p \<noteq> None then Some v else map_option status (node_at r q))"
proof (induction p arbitrary: r q)
  case Nil
  then show ?case by (cases q) (simp_all add: set_status_fields)
next
  case (Cons i p)
  obtain t tip st cs where r: "r = TestNode t tip st cs" by (cases r)
  show ?case
  proof (cases "i < length cs")
    case False
    then show ?thesis using r by simp
  next
    case True
    show ?thesis
    proof (cases q)
      case Nil
      then show ?thesis using r True by simp
    next
      case (Cons j q')
      show ?thesis
      proof (cases "j = i")
        case True
        then show ?thesis using r \<open>i < length cs\<close> Cons Cons.IH [of "cs ! i" q'] by simp
      next
        case False
        then show ?thesis using r \<open>i < length cs\<close> Cons by simp
      qed
    qed
  qed
qed

lemma node_at_modify_None:
  "node_at (modify_at (set_status v) p r) q = None \<longleftrightarrow> node_at r q = None"
proof (induction p arbitrary: r q)
  case Nil
  then show ?case by (cases q) (simp_all add: set_status_fields)
next
  case (Cons i p)
  obtain t tip st cs where r: "r = TestNode t tip st cs" by (cases r)
  show ?case
  proof (cases "i < length cs")
    case False
    then show ?thesis using r by simp
  next
    case True
    show ?thesis
    proof (cases q)
      case Nil
      then show ?thesis using r True by simp
    next
      case (Cons j q')
      show ?thesis
      proof (cases "j = i")
        case True
        then show ?thesis using r \<open>i < length cs\<close> Cons Cons.IH [of "cs ! i" q'] by simp
      next
        case False
        then show ?thesis using r \<open>i < length cs\<close> Cons by simp
      qed
    qed
  qed
qed

lemma node_at_append:
  "node_at r (p @ q) = (case node_at r p of None \<Rightarrow> None | Some n \<Rightarrow> node_at n q)"
  by (induction p arbitrary: r) simp_all

lemma node_at_prefix: "node_at r (p @ q) \<noteq> None \<Longrightarrow> node_at r p \<noteq> None"
  by (simp add: node_at_append split: option.splits)

lemma setData_decoration:
  "index \<noteq> [] \<Longrightarrow> node_at root index \<noteq> None \<Longrightarrow>
   \<exists>root'. setData root index (DecorationRole v) = Inr root' \<and>
     (\<forall>q. map_option status (node_at root' q) =
            (if q \<noteq> [] \<and> prefix q index then Some v else map_option status (node_at root q))) \<and>
     (\<forall>q. node_at root' q = None \<longleftrightarrow> node_at root q = None)"
proof (induction index arbitrary: root rule: rev_induct)
  case Nil
  then show ?case by simp
next
  case (snoc x xs)
  let ?root1 = "modify_at (set_status v) (xs @ [x]) root"
  have st1: "\<And>q. map_option status (node_at ?root1 q) =
      (if q = xs @ [x] then Some v else map_option status (node_at root q))"
    using status_at_modify [of v "xs @ [x]" root] snoc.prems(2) by simp
  have none1: "\<And>q. node_at ?root1 q = None \<longleftrightarrow> node_at root q = None"
    by (rule node_at_modify_None)
  show ?case
  proof (cases "xs = []")
    case True
    then have "setData root (xs @ [x]) (DecorationRole v) = Inr ?root1"
      using snoc.prems(2) by simp
    moreover have "\<And>q. (q \<noteq> [] \<and> prefix q (xs @ [x])) \<longleftrightarrow> q = xs @ [x]"
      using True by (auto simp: prefix_Cons)
    ultimately show ?thesis using st1 none1 by simp
  next
    case False
    have valid: "node_at ?root1 xs \<noteq> None"
      using node_at_prefix [of root xs "[x]"] snoc.prems(2) none1 by simp
    from snoc.IH [OF False valid] obtain root' where
      res: "setData ?root1 xs (DecorationRole v) = Inr root'" and
      st: "\<And>q. map_option status (node_at root' q) =
            (if q \<noteq> [] \<and> prefix q xs then Some v else map_option status (node_at ?root1 q))" and
      none: "\<And>q. node_at root' q = None \<longleftrightarrow> node_at ?root1 q = None"
      by blast
    have "length (xs @ [x]) \<noteq> 1" using False by simp
    then have "setData root (xs @ [x]) (DecorationRole v) = Inr root'"
      using res snoc.prems(2) by (simp add: Let_def)
    moreover have "\<And>q. (q \<noteq> [] \<and> prefix q (xs @ [x])) \<longleftrightarrow> (q \<noteq> [] \<and> prefix q xs) \<or> q = xs @ [x]"
      by (auto simp: prefix_snoc)
    ultimately show ?thesis using st st1 none none1 by simp
  qed
qed

lemma child_set_status: "child (set_status v n) row = child n row"
  unfolding child_def set_status_fields ..

lemma name_set_status: "name (set_status v n) = name n"
  by (simp add: name_def child_set_status set_status_fields split: unittest_obj.splits)

lemma get_status_ignores_status:
  "children n \<noteq> [] \<Longrightarrow> get_status (set_status v n) = get_status n"
proof (cases n)
  case (TestNode t tip st cs)
  assume "children n \<noteq> []"
  then have cs: "cs \<noteq> []" using TestNode by simp
  have "name (TestNode t tip v cs) = name (TestNode t tip st cs)"
    using name_set_status [of v "TestNode t tip st cs"] by simp
  then show ?thesis using TestNode cs by simp
qed

lemma test_at_modify:
  "map_option test (node_at (modify_at (set_status v) p r) q) = map_option test (node_at r q)"
proof (induction p arbitrary: r q)
  case Nil
  then show ?case by (cases q) (simp_all add: set_status_fields)
next
  case (Cons i p)
  obtain t tip st cs where r: "r = TestNode t tip st cs" by (cases r)
  show ?case
  proof (cases "i < length cs")
    case False
    then show ?thesis using r by simp
  next
    case True
    show ?thesis
    proof (cases q)
      case Nil
      then show ?thesis using r True by simp
    next
      case (Cons j q')
      show ?thesis
      proof (cases "j = i")
        case True
        then show ?thesis using r \<open>i < length cs\<close> Cons Cons.IH [of "cs ! i" q'] by simp
      next
        case False
        then show ?thesis using r \<open>i < length cs\<close> Cons by simp
      qed
    qed
  qed
qed

lemma child_0_node_at: "child n 0 = node_at n [0]"
  by (cases "children n") (simp_all add: child_def)

lemma name_by_tests:
  "name n =
     (case test n of
        TestCase cn cm testMethodName run \<Rightarrow> Inr testMethodName
      | TestSuite cn cm ts \<Rightarrow>
          (case map_option test (node_at n [0]) of
             None \<Rightarrow> Inl AttributeError
           | Some tc \<Rightarrow>
               if is_TestCase tc then Inr (cls_name tc)
               else (case map_option test (node_at n [0, 0]) of
                       None \<Rightarrow> Inl AttributeError
                     | Some tg \<Rightarrow> Inr (cls_module tg))))"
proof (cases "test n")
  case (TestCase cn cm meth run)
  then show ?thesis by (simp add: name_def)
next
  case (TestSuite cn cm ts)
  show ?thesis
  proof (cases "node_at n [0]")
    case None
    then show ?thesis using TestSuite by (simp add: name_def child_0_node_at)
  next
    case (Some c)
    have deeper: "node_at n [0, 0] = node_at c [0]"
      using Some node_at_append [of n "[0]" "[0]"] by simp
    show ?thesis
      using TestSuite Some deeper
      by (cases "node_at c [0]") (simp_all add: name_def child_0_node_at del: node_at.simps)
  qed
qed

lemma name_modify: "name (modify_at (set_status v) p r) = name r"
  using test_at_modify [of v p r "[]"] test_at_modify [of v p r "[0]"]
    test_at_modify [of v p r "[0, 0]"]
  by (simp only: name_by_tests [of "modify_at (set_status v) p r"] name_by_tests [of r])
     (simp del: node_at.simps add: node_at.simps(1))

lemma status_loop_same:
  "map get_status cs' = map get_status cs \<Longrightarrow> status_loop cs' res = status_loop cs res"
proof (induction cs arbitrary: cs' res)
  case Nil
  then show ?case by simp
next
  case (Cons c cs)
  then obtain c' cs'' where parts: "cs' = c' # cs''" "get_status c' = get_status c"
    and rest: "map get_status cs'' = map get_status cs"
    by (cases cs') auto
  have "\<And>res'. status_loop cs'' res' = status_loop cs res'"
    using Cons.IH [OF rest] .
  then show ?case using parts by (simp split: sum.splits)
qed

lemma get_status_modify_nonleaf:
  "node_at r p = Some n \<Longrightarrow> children n \<noteq> [] \<Longrightarrow>
   get_status (modify_at (set_status v) p r) = get_status r"
proof (induction p arbitrary: r)
  case Nil
  then show ?case using get_status_ignores_status by simp
next
  case (Cons i p)
  obtain t tip st cs where r: "r = TestNode t tip st cs" by (cases r)
  have i: "i < length cs" and at: "node_at (cs ! i) p = Some n"
    using Cons.prems(1) r by (auto split: if_splits)
  let ?c = "modify_at (set_status v) p (cs ! i)"
  have c: "get_status ?c = get_status (cs ! i)" using Cons.IH [OF at Cons.prems(2)] .
  have r': "modify_at (set_status v) (i # p) r = TestNode t tip st (cs[i := ?c])"
    using r i by simp
  have nm: "name (TestNode t tip st (cs[i := ?c])) = name (TestNode t tip st cs)"
    using name_modify [of v "i # p" r] r r' by simp
  have "map get_status (cs[i := ?c]) = map get_status cs"
    using c i by (simp add: map_update list_update_same_conv)
  then have loop: "status_loop (cs[i := ?c]) not_run = status_loop cs not_run"
    by (rule status_loop_same)
  have "cs[i := ?c] = [] \<longleftrightarrow> cs = []" by simp
  then show ?case unfolding r' r using nm loop by (simp split: sum.splits)
qed

lemma get_status_at_modify_nonleaf:
  "node_at r p = Some n \<Longrightarrow> children n \<noteq> [] \<Longrightarrow>
   map_option get_status (node_at (modify_at (set_status v) p r) q) =
     map_option get_status (node_at r q)"
proof (induction q arbitrary: p r)
  case Nil
  then show ?case using get_status_modify_nonleaf by simp
next
  case (Cons j q)
  show ?case
  proof (cases p)
    case Nil
    then show ?thesis by (simp add: set_status_fields)
  next
    case (Cons i p')
    obtain t tip st cs where r: "r = TestNode t tip st cs" by (cases r)
    have i: "i < length cs" and at: "node_at (cs ! i) p' = Some n"
      using Cons.prems(1) r Cons by (auto split: if_splits)
    show ?thesis
    proof (cases "j = i")
      case True
      then show ?thesis using r i Cons Cons.IH [OF at Cons.prems(2)] by simp
    next
      case False
      then show ?thesis using r i Cons by simp
    qed
  qed
qed

lemma parent_has_children:
  "node_at r (xs @ [x]) \<noteq> None \<Longrightarrow> \<exists>m. node_at r xs = Some m \<and> children m \<noteq> []"
  by (cases "node_at r xs") (auto simp: node_at_append split: if_splits)

lemma setData_decoration_reports:
  "index \<noteq> [] \<Longrightarrow> node_at root index \<noteq> None \<Longrightarrow>
   \<exists>root'. setData root index (DecorationRole v) = Inr root' \<and>
     (\<forall>q. map_option get_status (node_at root' q) =
            map_option get_status (node_at (modify_at (set_status v) index root) q))"
proof (induction index arbitrary: root rule: rev_induct)
  case Nil
  then show ?case by simp
next
  case (snoc x xs)
  let ?root1 = "modify_at (set_status v) (xs @ [x]) root"
  have valid1: "node_at ?root1 (xs @ [x]) \<noteq> None"
    using snoc.prems(2) by (simp add: node_at_modify_None)
  show ?case
  proof (cases "xs = []")
    case True
    then have "setData root (xs @ [x]) (DecorationRole v) = Inr ?root1"
      using snoc.prems(2) by simp
    then show ?thesis by simp
  next
    case False
    obtain m where m: "node_at ?root1 xs = Some m" "children m \<noteq> []"
      using parent_has_children [OF valid1] by blast
    then have valid: "node_at ?root1 xs \<noteq> None" by simp
    from snoc.IH [OF False valid] obtain root' where
      res: "setData ?root1 xs (DecorationRole v) = Inr root'" and
      rep: "\<And>q. map_option get_status (node_at root' q) =
            map_option get_status (node_at (modify_at (set_status v) xs ?root1) q)"
      by blast
    have same: "\<And>q. map_option get_status (node_at (modify_at (set_status v) xs ?root1) q) =
        map_option get_status (node_at ?root1 q)"
      using get_status_at_modify_nonleaf [OF m] .
    have "length (xs @ [x]) \<noteq> 1" using False by simp
    then have "setData root (xs @ [x]) (DecorationRole v) = Inr root'"
      using res snoc.prems(2) by (simp add: Let_def)
    then show ?thesis using rep same by simp
  qed
qed

text \<open>
  C3, as amended: \<open>get_status\<close> of a node with children does not read the status
  field of the node, so the status of such a node is always recomputed from its children:
  writing the status field of a node with children, anywhere in a tree, changes what
  \<open>get_status\<close> returns for no node of the tree. \<open>setData\<close> with the decoration role,
  on the index of a node, returns and writes the status field of that node and of every
  ancestor of it below the root, and of no other node; after it, every node reports by
  \<open>get_status\<close> what it would report had the status field of the addressed node alone
  been written.
\<close>

theorem status_recomputed_and_written:
  "(children n \<noteq> [] \<longrightarrow> get_status (set_status v n) = get_status n) \<and>
   (node_at root p = Some n \<and> children n \<noteq> [] \<longrightarrow>
      (\<forall>q. map_option get_status (node_at (modify_at (set_status v) p root) q) =
             map_option get_status (node_at root q))) \<and>
   (index \<noteq> [] \<and> node_at root index \<noteq> None \<longrightarrow>
      (\<exists>root'. setData root index (DecorationRole v) = Inr root' \<and>
         (\<forall>q. map_option status (node_at root' q) =
                (if q \<noteq> [] \<and> prefix q index then Some v
                 else map_option status (node_at root q))) \<and>
         (\<forall>q. map_option get_status (node_at root' q) =
                map_option get_status (node_at (modify_at (set_status v) index root) q))))"
proof -
  have a: "children n \<noteq> [] \<longrightarrow> get_status (set_status v n) = get_status n"
    using get_status_ignores_status by blast
  have b: "node_at root p = Some n \<and> children n \<noteq> [] \<longrightarrow>
      (\<forall>q. map_option get_status (node_at (modify_at (set_status v) p root) q) =
             map_option get_status (node_at root q))"
    using get_status_at_modify_nonleaf by blast
  have c: "index \<noteq> [] \<and> node_at root index \<noteq> None \<longrightarrow>
      (\<exists>root'. setData root index (DecorationRole v) = Inr root' \<and>
         (\<forall>q. map_option status (node_at root' q) =
                (if q \<noteq> [] \<and> prefix q index then Some v
                 else map_option status (node_at root q))) \<and>
         (\<forall>q. map_option get_status (node_at root' q) =
                map_option get_status (node_at (modify_at (set_status v) index root) q)))"
  proof
    assume h: "index \<noteq> [] \<and> node_at root index \<noteq> None"
    obtain r1 where r1: "setData root index (DecorationRole v) = Inr r1"
      "\<forall>q. map_option status (node_at r1 q) =
                (if q \<noteq> [] \<and> prefix q index then Some v
                 else map_option status (node_at root q))"
      using setData_decoration [of index root v] h by blast
    obtain r2 where r2: "setData root index (DecorationRole v) = Inr r2"
      "\<forall>q. map_option get_status (node_at r2 q) =
            map_option get_status (node_at (modify_at (set_status v) index root) q)"
      using setData_decoration_reports [of index root v] h by blast
    have "r2 = r1" using r1(1) r2(1) by simp
    then show "\<exists>root'. setData root index (DecorationRole v) = Inr root' \<and>
         (\<forall>q. map_option status (node_at root' q) =
                (if q \<noteq> [] \<and> prefix q index then Some v
                 else map_option status (node_at root q))) \<and>
         (\<forall>q. map_option get_status (node_at root' q) =
                map_option get_status (node_at (modify_at (set_status v) index root) q))"
      using r1 r2 by blast
  qed
  show ?thesis using a b c by blast
qed

theorem status_recomputed_and_written_witness:
  "get_status (set_status fail (suite_node [leaf_node (sample_case ''test_a'') not_run,
        leaf_node (sample_case ''test_b'') not_run])) = Inr not_run \<and>
   map_option get_status (node_at (modify_at (set_status fail) [0, 0] fresh_tree) []) =
     Some (Inr not_run) \<and>
   map_option get_status (node_at (modify_at (set_status fail) [0, 0] fresh_tree) [0, 0]) =
     Some (Inr not_run) \<and>
   (\<exists>root'. setData fresh_tree [0, 0, 1] (DecorationRole fail) = Inr root' \<and>
      map_option status (node_at root' [0, 0, 1]) = Some fail \<and>
      map_option status (node_at root' [0, 0]) = Some fail \<and>
      map_option status (node_at root' [0]) = Some fail \<and>
      map_option status (node_at root' []) = Some not_run \<and>
      map_option status (node_at root' [0, 0, 0]) = Some not_run \<and>
      map_option get_status (node_at root' []) = Some (Inr fail) \<and>
      map_option get_status (node_at root' [0, 0, 0]) = Some (Inr not_run))"
proof -
  let ?n = "suite_node [leaf_node (sample_case ''test_a'') not_run,
        leaf_node (sample_case ''test_b'') not_run]"
  have n: "children ?n \<noteq> []" by (simp add: suite_node_def)
  have at: "node_at fresh_tree [0, 0] = Some ?n"
    by (simp add: fresh_tree_def suite_node_def leaf_node_def)
  have st: "get_status ?n = Inr not_run"
    by (simp add: suite_node_def leaf_node_def sample_case_def name_def child_def)
  have idx: "[0, 0, 1] \<noteq> ([]::nat list) \<and> node_at fresh_tree [0, 0, 1] \<noteq> None"
    by (simp add: fresh_tree_def suite_node_def leaf_node_def)
  have old: "map_option status (node_at fresh_tree []) = Some not_run"
    "map_option status (node_at fresh_tree [0, 0, 0]) = Some not_run"
    by (simp_all add: fresh_tree_def suite_node_def leaf_node_def)
  have olds: "map_option get_status (node_at fresh_tree []) = Some (Inr not_run)"
    "map_option get_status (node_at fresh_tree [0, 0]) = Some (Inr not_run)"
    by (simp_all add: fresh_tree_def suite_node_def leaf_node_def sample_case_def name_def
          child_def)
  have leaf: "map_option get_status (node_at (modify_at (set_status fail) [0, 0, 1] fresh_tree) []) =
      Some (Inr fail)"
    "map_option get_status (node_at (modify_at (set_status fail) [0, 0, 1] fresh_tree) [0, 0, 0]) =
      Some (Inr not_run)"
    by (simp_all add: fresh_tree_def suite_node_def leaf_node_def sample_case_def name_def
          child_def)
  note inst = status_recomputed_and_written
    [where n = ?n and v = fail and root = fresh_tree and p = "[0, 0]" and index = "[0, 0, 1]"]
  from inst n st have a: "get_status (set_status fail ?n) = Inr not_run" by simp
  from inst n at have b: "\<And>q. map_option get_status
        (node_at (modify_at (set_status fail) [0, 0] fresh_tree) q) =
      map_option get_status (node_at fresh_tree q)"
    by blast
  have b': "map_option get_status (node_at (modify_at (set_status fail) [0, 0] fresh_tree) []) =
      Some (Inr not_run)"
    "map_option get_status (node_at (modify_at (set_status fail) [0, 0] fresh_tree) [0, 0]) =
      Some (Inr not_run)"
    using olds by (simp_all only: b)
  from inst idx obtain root' where r: "setData fresh_tree [0, 0, 1] (DecorationRole fail) = Inr root'"
    and q: "\<And>q. map_option status (node_at root' q) =
                (if q \<noteq> [] \<and> prefix q [0, 0, 1] then Some fail
                 else map_option status (node_at fresh_tree q))"
    and g: "\<And>q. map_option get_status (node_at root' q) =
                map_option get_status (node_at (modify_at (set_status fail) [0, 0, 1] fresh_tree) q)"
    by blast
  have "map_option status (node_at root' [0, 0, 1]) = Some fail"
    "map_option status (node_at root' [0, 0]) = Some fail"
    "map_option status (node_at root' [0]) = Some fail"
    "map_option status (node_at root' []) = Some not_run"
    "map_option status (node_at root' [0, 0, 0]) = Some not_run"
    using old by (subst q, simp)+
  moreover have "map_option get_status (node_at root' []) = Some (Inr fail)"
    "map_option get_status (node_at root' [0, 0, 0]) = Some (Inr not_run)"
    using leaf by (simp_all only: g)
  ultimately show ?thesis using a b' r by blast
qed

text \<open>
  C3 as stated fails on the code: when a run reports the failure of one test, the status
  field of the suite of its class, a node with two children, is written too.
\<close>

theorem status_written_counterexample:
  "map_option status (node_at fresh_tree [0, 0]) = Some not_run \<and>
   map_option child_count (node_at fresh_tree [0, 0]) = Some 2 \<and>
   set_test_result_data unittest_str (TestTreeModel_init unittest_str fresh_tree)
       [(sample_case ''test_b'', ''AssertionError'')] fail =
     Inr \<lparr>root_node = after_failure,
          node_lookup = node_lookup (TestTreeModel_init unittest_str fresh_tree)\<rparr> \<and>
   map_option status (node_at after_failure [0, 0]) = Some fail \<and>
   map_option child_count (node_at after_failure [0, 0]) = Some 2"
  by (simp add: fresh_tree_def after_failure_def suite_node_def leaf_node_def sample_case_def
        child_count_def TestTreeModel_init_def Let_def)

subsection \<open>The tests taken by run_failed_tests\<close>

lemma wf_node_leaves:
  "wf_node n \<Longrightarrow> \<forall>m\<in>set (subnodes n). children m = [] \<longrightarrow> is_TestCase (test m)"
proof (induction n)
  case (TestNode t tip st cs)
  show ?case
  proof
    fix m assume m: "m \<in> set (subnodes (TestNode t tip st cs))"
    show "children m = [] \<longrightarrow> is_TestCase (test m)"
    proof (cases "m = TestNode t tip st cs")
      case True
      then show ?thesis using TestNode.prems by (auto split: if_splits)
    next
      case False
      then obtain c where c: "c \<in> set cs" "m \<in> set (subnodes c)" using m by auto
      then have "wf_node c" using TestNode.prems by (auto split: if_splits)
      then show ?thesis using TestNode.IH c by blast
    qed
  qed
qed

lemma wf_node_name: "wf_node n \<Longrightarrow> \<exists>nm. name n = Inr nm"
  using wf_node_leaves name_returns by blast

lemma status_loop_returns:
  "\<forall>c\<in>set cs. \<exists>s. get_status c = Inr s \<Longrightarrow> \<exists>s. status_loop cs res = Inr s"
proof (induction cs arbitrary: res)
  case Nil
  then show ?case by simp
next
  case (Cons c cs)
  then obtain s where s: "get_status c = Inr s" by auto
  have "\<And>res'. \<exists>s'. status_loop cs res' = Inr s'" using Cons by simp
  then show ?case using s by simp
qed

lemma wf_node_get_status_returns: "wf_node n \<Longrightarrow> \<exists>s. get_status n = Inr s"
proof (induction n)
  case (TestNode t tip st cs)
  obtain nm where nm: "name (TestNode t tip st cs) = Inr nm"
    using wf_node_name [OF TestNode.prems] by blast
  have "\<forall>c\<in>set cs. \<exists>s. get_status c = Inr s"
    using TestNode.IH TestNode.prems by (auto split: if_splits)
  then obtain s where "status_loop cs not_run = Inr s"
    using status_loop_returns by blast
  then show ?case using nm by simp
qed

lemma wf_node_at: "wf_node n \<Longrightarrow> node_at n pos = Some m \<Longrightarrow> wf_node m"
proof (induction pos arbitrary: n)
  case Nil
  then show ?case by simp
next
  case (Cons i pos)
  obtain t tip st cs where n: "n = TestNode t tip st cs" by (cases n)
  have i: "i < length cs" and at: "node_at (cs ! i) pos = Some m"
    using Cons.prems(2) n by (auto split: if_splits)
  have "wf_node (cs ! i)" using Cons.prems(1) n i by (auto split: if_splits)
  then show ?case using Cons.IH at by blast
qed

lemma wf_tree_node_at:
  "wf_tree root \<Longrightarrow> pos \<noteq> [] \<Longrightarrow> node_at root pos = Some m \<Longrightarrow> wf_node m"
proof -
  assume wf: "wf_tree root" and ne: "pos \<noteq> []" and at: "node_at root pos = Some m"
  obtain i rest where pos: "pos = i # rest" using ne by (cases pos) auto
  have i: "i < length (children root)" and at': "node_at (children root ! i) rest = Some m"
    using at pos by (auto split: if_splits)
  have "wf_node (children root ! i)"
    using wf i unfolding wf_tree_def by (auto split: if_splits)
  then show ?thesis using wf_node_at at' by blast
qed

lemma wf_tree_case_leaf:
  "wf_tree root \<Longrightarrow> node_at root pos = Some node \<Longrightarrow> is_TestCase (test node) \<Longrightarrow>
   children node = []"
proof (cases "pos = []")
  case True
  assume "wf_tree root" "node_at root pos = Some node" "is_TestCase (test node)"
  then show ?thesis using True by (simp add: wf_tree_def)
next
  case False
  assume "wf_tree root" "node_at root pos = Some node" "is_TestCase (test node)"
  then have "wf_node node" "is_TestCase (test node)" using False wf_tree_node_at by blast+
  then show ?thesis by (cases node) (auto split: if_splits)
qed

lemma case_leaf_status:
  "is_TestCase (test node) \<Longrightarrow> children node = [] \<Longrightarrow> \<exists>st. get_status node = Inr st"
  by (cases node; cases "test node") (auto simp: name_def)

lemma path_returns:
  "wf_tree root \<Longrightarrow> node_at root pos = Some node \<Longrightarrow> (pos = [] \<longrightarrow> is_TestCase (test node)) \<Longrightarrow>
   \<exists>p. path root pos = Inr p"
proof (induction pos arbitrary: node rule: rev_induct)
  case Nil
  then obtain nm where "name node = Inr nm"
    by (cases "test node") (auto simp: name_def)
  then show ?case using Nil by (subst path.simps) simp
next
  case (snoc x xs)
  have "wf_node node" using snoc.prems wf_tree_node_at by blast
  then obtain nm where nm: "name node = Inr nm" using wf_node_name by blast
  show ?case
  proof (cases "xs = []")
    case True
    then show ?thesis using snoc.prems(2) nm by (subst path.simps) simp
  next
    case False
    obtain parent where parent: "node_at root xs = Some parent"
      using node_at_prefix [of root xs "[x]"] snoc.prems(2) by auto
    obtain pp where pp: "path root xs = Inr pp"
      using snoc.IH [OF snoc.prems(1) parent] False by blast
    have "2 \<le> length (xs @ [x])" using False by (cases xs) auto
    then show ?thesis using snoc.prems(2) nm pp by (subst path.simps) simp
  qed
qed

lemma failed_tests_loop_selection:
  "wf_tree root \<Longrightarrow> \<forall>pos\<in>set ps. node_at root pos \<noteq> None \<Longrightarrow>
   \<exists>calls. failed_tests_loop root ps = Inr calls \<and>
     map fst calls = filter (is_failed_test root) ps \<and>
     (\<forall>c\<in>set calls. path root (fst c) = Inr (snd c))"
proof (induction ps)
  case Nil
  then show ?case by simp
next
  case (Cons pos ps)
  obtain node where node: "node_at root pos = Some node" using Cons.prems(2) by auto
  obtain calls where calls: "failed_tests_loop root ps = Inr calls"
    "map fst calls = filter (is_failed_test root) ps"
    "\<forall>c\<in>set calls. path root (fst c) = Inr (snd c)"
    using Cons.IH Cons.prems by auto
  show ?case
  proof (cases "is_TestCase (test node)")
    case False
    then have "\<not> is_failed_test root pos" using node by (simp add: is_failed_test_def)
    then show ?thesis using node calls False by simp
  next
    case True
    have leaf: "children node = []" using wf_tree_case_leaf Cons.prems(1) node True by blast
    obtain st where st: "get_status node = Inr st" using case_leaf_status True leaf by blast
    obtain p where p: "path root pos = Inr p"
      using path_returns [OF Cons.prems(1) node] True by blast
    have sel: "is_failed_test root pos \<longleftrightarrow> st \<in> {fail, error}"
      using node True leaf st by (auto simp: is_failed_test_def)
    show ?thesis
    proof (cases "st \<in> {fail, error}")
      case True
      then have "failed_tests_loop root (pos # ps) = Inr ((pos, p) # calls)"
        using node calls(1) \<open>is_TestCase (test node)\<close> st p by simp
      then show ?thesis using calls(2,3) sel True p by simp
    next
      case False
      then have "failed_tests_loop root (pos # ps) = Inr calls"
        using node calls(1) \<open>is_TestCase (test node)\<close> st by simp
      then show ?thesis using calls(2,3) sel False by simp
    qed
  qed
qed

text \<open>
  The two hypotheses of the next theorem hold of the model as it is constructed, and
  \<open>setData\<close> keeps them: every value of the lookup that \<open>TestTreeModel_init\<close> creates
  is the position of a node of the tree, and \<open>setData\<close> changes neither the shape of the
  tree nor the positions that hold a node. The shape itself is what \<open>TestNode_init\<close>
  returns (\<open>TestNode_init_shape\<close>).
\<close>

lemma update_values: "snd ` set (AList.update k v al) \<subseteq> insert v (snd ` set al)"
  by (induction al) auto

lemma drop_Cons_nth:
  "drop row xs = c # cs \<Longrightarrow> row < length xs \<and> xs ! row = c \<and> drop (Suc row) xs = cs"
proof -
  assume d: "drop row xs = c # cs"
  then have len: "row < length xs" by (cases "row < length xs") auto
  then have "drop row xs = xs ! row # drop (Suc row) xs" by (simp add: Cons_nth_drop_Suc)
  then show ?thesis using d len by simp
qed

lemma create_lookup_valid:
  shows "node_at root pos = Some n \<longrightarrow> (\<forall>p\<in>snd ` set lookup. node_at root p \<noteq> None) \<longrightarrow>
      (\<forall>p\<in>snd ` set (create_node_lookup str n pos lookup). node_at root p \<noteq> None)"
    and "(\<exists>parent. node_at root pos = Some parent \<and> drop row (children parent) = cs) \<longrightarrow>
      (\<forall>p\<in>snd ` set lookup. node_at root p \<noteq> None) \<longrightarrow>
      (\<forall>p\<in>snd ` set (create_children_lookup str cs pos row lookup). node_at root p \<noteq> None)"
proof (induction str n pos lookup and str cs pos row lookup
    rule: create_node_lookup_create_children_lookup.induct)
  case (1 str t tip st cs pos lookup)
  show ?case
  proof (intro impI)
    assume at: "node_at root pos = Some (TestNode t tip st cs)"
      and lk: "\<forall>p\<in>snd ` set lookup. node_at root p \<noteq> None"
    have "node_at root pos \<noteq> None" using at by simp
    then have "\<forall>p\<in>snd ` set (AList.update (str t) pos lookup). node_at root p \<noteq> None"
      using update_values [of "str t" pos lookup] lk by blast
    moreover have "\<exists>parent. node_at root pos = Some parent \<and> drop 0 (children parent) = cs"
      using at by simp
    ultimately show "\<forall>p\<in>snd ` set (create_node_lookup str (TestNode t tip st cs) pos lookup).
        node_at root p \<noteq> None"
      using "1.IH" by simp
  qed
next
  case (2 str pos row lookup)
  then show ?case by simp
next
  case (3 str c cs pos row lookup)
  show ?case
  proof (intro impI)
    assume "\<exists>parent. node_at root pos = Some parent \<and> drop row (children parent) = c # cs"
      and lk: "\<forall>p\<in>snd ` set lookup. node_at root p \<noteq> None"
    then obtain parent where parent: "node_at root pos = Some parent"
      and d: "drop row (children parent) = c # cs" by blast
    note parts = drop_Cons_nth [OF d]
    have "node_at root (pos @ [row]) = Some c"
      using parent parts by (simp add: node_at_append)
    then have inner: "\<forall>p\<in>snd ` set (create_node_lookup str c (pos @ [row]) lookup).
        node_at root p \<noteq> None"
      using "3.IH"(1) lk by blast
    have "\<exists>parent. node_at root pos = Some parent \<and> drop (Suc row) (children parent) = cs"
      using parent parts by blast
    then show "\<forall>p\<in>snd ` set (create_children_lookup str (c # cs) pos row lookup).
        node_at root p \<noteq> None"
      using "3.IH"(2) inner by simp
  qed
qed

lemma TestTreeModel_init_valid:
  "\<forall>pos\<in>set (map snd (node_lookup (TestTreeModel_init str root))).
     node_at (root_node (TestTreeModel_init str root)) pos \<noteq> None"
  using create_lookup_valid(1) [of root "[]" root "[]" str]
  by (simp add: TestTreeModel_init_def)

lemma set_tool_tip_fields:
  "test (set_tool_tip v n) = test n" "children (set_tool_tip v n) = children n"
  "status (set_tool_tip v n) = status n" "tool_tip (set_tool_tip v n) = v"
  by (cases n; simp)+

lemma wf_node_same_shape: "test a = test b \<Longrightarrow> children a = children b \<Longrightarrow> wf_node a = wf_node b"
  by (cases a; cases b) simp

lemma all_list_update:
  "i < length cs \<Longrightarrow> P c' = P (cs ! i) \<Longrightarrow> (\<forall>c\<in>set (cs[i := c']). P c) = (\<forall>c\<in>set cs. P c)"
proof -
  assume i: "i < length cs" and eq: "P c' = P (cs ! i)"
  have "(\<forall>c\<in>set (cs[i := c']). P c) = (\<forall>j<length cs. P (cs[i := c'] ! j))"
    by (simp add: all_set_conv_all_nth)
  also have "\<dots> = (\<forall>j<length cs. P (cs ! j))"
  proof (intro all_cong1 imp_cong refl)
    fix j assume "j < length cs"
    then show "P (cs[i := c'] ! j) = P (cs ! j)" using eq by (cases "j = i") simp_all
  qed
  also have "\<dots> = (\<forall>c\<in>set cs. P c)" by (simp add: all_set_conv_all_nth)
  finally show ?thesis .
qed

lemma wf_node_modify:
  assumes keeps: "\<And>n. test (f n) = test n \<and> children (f n) = children n"
  shows "wf_node (modify_at f p n) = wf_node n"
proof (induction p arbitrary: n)
  case Nil
  have "wf_node (f n) = wf_node n" by (rule wf_node_same_shape) (simp_all add: keeps)
  then show ?case by simp
next
  case (Cons i p)
  obtain t tip st cs where n: "n = TestNode t tip st cs" by (cases n)
  show ?case
  proof (cases "i < length cs")
    case False
    then show ?thesis using n by simp
  next
    case True
    have "(\<forall>c\<in>set (cs[i := modify_at f p (cs ! i)]). wf_node c) = (\<forall>c\<in>set cs. wf_node c)"
      using all_list_update [OF True, of wf_node] Cons.IH by blast
    moreover have "cs[i := modify_at f p (cs ! i)] = [] \<longleftrightarrow> cs = []" by simp
    ultimately show ?thesis using n True by simp
  qed
qed

lemma wf_tree_modify:
  assumes keeps: "\<And>n. test (f n) = test n \<and> children (f n) = children n"
  shows "wf_tree (modify_at f p root) = wf_tree root"
proof (cases p)
  case Nil
  then show ?thesis using keeps by (simp add: wf_tree_def)
next
  case (Cons i p')
  obtain t tip st cs where root: "root = TestNode t tip st cs" by (cases root)
  show ?thesis
  proof (cases "i < length cs")
    case False
    then show ?thesis using root Cons by simp
  next
    case True
    have "(\<forall>c\<in>set (cs[i := modify_at f p' (cs ! i)]). wf_node c) = (\<forall>c\<in>set cs. wf_node c)"
      using all_list_update [OF True, of wf_node] wf_node_modify [OF keeps] by blast
    moreover have "cs[i := modify_at f p' (cs ! i)] = [] \<longleftrightarrow> cs = []" by simp
    ultimately show ?thesis using root Cons True by (simp add: wf_tree_def)
  qed
qed

lemma node_at_modify_tool_tip_None:
  "node_at (modify_at (set_tool_tip v) p r) q = None \<longleftrightarrow> node_at r q = None"
proof (induction p arbitrary: r q)
  case Nil
  then show ?case by (cases q) (simp_all add: set_tool_tip_fields)
next
  case (Cons i p)
  obtain t tip st cs where r: "r = TestNode t tip st cs" by (cases r)
  show ?case
  proof (cases "i < length cs")
    case False
    then show ?thesis using r by simp
  next
    case True
    show ?thesis
    proof (cases q)
      case Nil
      then show ?thesis using r True by simp
    next
      case (Cons j q')
      show ?thesis
      proof (cases "j = i")
        case True
        then show ?thesis using r \<open>i < length cs\<close> Cons Cons.IH [of "cs ! i" q'] by simp
      next
        case False
        then show ?thesis using r \<open>i < length cs\<close> Cons by simp
      qed
    qed
  qed
qed

lemma setData_keeps_shape:
  "setData root index r = Inr root' \<Longrightarrow>
   wf_tree root' = wf_tree root \<and> (\<forall>q. node_at root' q = None \<longleftrightarrow> node_at root q = None)"
proof (induction root index r arbitrary: root' rule: setData.induct)
  case (1 root index)
  then show ?case by simp
next
  case (2 root index v)
  let ?root1 = "modify_at (set_status v) index root"
  have ok: "\<not> (index = [] \<or> node_at root index = None)"
    using "2.prems" by (auto split: if_splits)
  have one: "wf_tree ?root1 = wf_tree root \<and> (\<forall>q. node_at ?root1 q = None \<longleftrightarrow> node_at root q = None)"
    using wf_tree_modify [of "set_status v" index root] node_at_modify_None
    by (simp add: set_status_fields)
  show ?case
  proof (cases "length index \<noteq> 1")
    case True
    then have "setData ?root1 (butlast index) (DecorationRole v) = Inr root'"
      using "2.prems" ok by (simp add: Let_def)
    then have "wf_tree root' = wf_tree ?root1 \<and>
        (\<forall>q. node_at root' q = None \<longleftrightarrow> node_at ?root1 q = None)"
      using "2.IH" [OF ok refl True] by blast
    then show ?thesis using one by simp
  next
    case False
    then have "root' = ?root1" using "2.prems" ok by (simp add: Let_def)
    then show ?thesis using one by simp
  qed
next
  case (3 root index v)
  then have "root' = modify_at (set_tool_tip v) index root" by (auto split: if_splits)
  then show ?case
    using wf_tree_modify [of "set_tool_tip v" index root] node_at_modify_tool_tip_None
    by (simp add: set_tool_tip_fields)
qed

text \<open>
  C7: on a tree as the constructor builds it, with a lookup whose values are nodes of the
  tree, \<open>run_failed_tests\<close> returns, and it calls \<open>get_tests\<close> for exactly the nodes
  of the lookup that are leaves, hold a test case and have the status \<open>fail\<close> or
  \<open>error\<close>, in the order of the lookup, each with the path of the node.
\<close>

theorem run_failed_tests_selection:
  assumes "wf_tree (root_node m)"
    and "\<forall>pos\<in>set (map snd (node_lookup m)). node_at (root_node m) pos \<noteq> None"
  shows "\<exists>calls. run_failed_tests m = Inr calls \<and>
           map fst calls = filter (is_failed_test (root_node m)) (map snd (node_lookup m)) \<and>
           (\<forall>c\<in>set calls. path (root_node m) (fst c) = Inr (snd c))"
  unfolding run_failed_tests_def
  using failed_tests_loop_selection [OF assms] .

lemma ran_lookup:
  "map snd (node_lookup ran_model) =
     [[], [0], [0, 0], [0, 0, 0], [0, 0, 1], [0, 1], [0, 1, 0], [0, 1, 1], [0, 1, 2]]"
  by (simp add: ran_model_def TestTreeModel_init_def ran_tree_def suite_node_def leaf_node_def
        sample_case_def other_case_def)

theorem run_failed_tests_selection_witness:
  "\<exists>calls. run_failed_tests ran_model = Inr calls \<and>
     map fst calls = [[0, 0, 1], [0, 1, 0]] \<and>
     path (root_node ran_model) [0, 0, 1] = Inr ''test_sample.SampleTests.test_b'' \<and>
     path (root_node ran_model) [0, 1, 0] = Inr ''test_sample.OtherTests.test_c''"
proof -
  have root: "root_node ran_model = ran_tree" by (simp add: ran_model_def TestTreeModel_init_def)
  have wf: "wf_tree (root_node ran_model)"
    by (simp add: root ran_tree_def wf_tree_def suite_node_def leaf_node_def sample_case_def
          other_case_def)
  have valid: "\<forall>pos\<in>set (map snd (node_lookup ran_model)). node_at (root_node ran_model) pos \<noteq> None"
    unfolding ran_lookup root
    by (simp add: ran_tree_def suite_node_def leaf_node_def)
  have sel: "filter (is_failed_test (root_node ran_model)) (map snd (node_lookup ran_model)) =
      [[0, 0, 1], [0, 1, 0]]"
    unfolding ran_lookup root
    by (simp add: is_failed_test_def ran_tree_def suite_node_def leaf_node_def sample_case_def
          other_case_def name_def child_def)
  have p1: "path (root_node ran_model) [0, 0, 1] = Inr ''test_sample.SampleTests.test_b''"
    unfolding root
    by (simp add: path.simps ran_tree_def suite_node_def leaf_node_def sample_case_def
          other_case_def name_def child_def)
  have p2: "path (root_node ran_model) [0, 1, 0] = Inr ''test_sample.OtherTests.test_c''"
    unfolding root
    by (simp add: path.simps ran_tree_def suite_node_def leaf_node_def sample_case_def
          other_case_def name_def child_def)
  show ?thesis using run_failed_tests_selection [OF wf valid] sel p1 p2 by auto
qed

end
